theory Spec2Isabelle
  imports Main
begin

section \<open>Data model of the deploy orchestrator\<close>

text \<open>
  The development embeds \<^verbatim>\<open>packages/core/src/core/deploy/deploy_actions.ts\<close>.
  Elements are JavaScript objects shared by reference between the changes of the plan and
  the changes an adapter returns, and \<^verbatim>\<open>updatePlanElement\<close> mutates them in place.
  The embedding therefore keeps them in an explicit store: a change holds addresses, and
  the store maps every address to the element object found there.
\<close>

type_synonym ref = nat

type_synonym PlanItemId = string

text \<open>
  Modelled from the spec: the element identifier and the element of the adapter API, which
  are imported by the source. An element is identified by a stable identifier scoped to an
  adapter namespace. The orchestrator reads two things from the identifier: the adapter
  namespace (\<^verbatim>\<open>elemID.adapter\<close>) and the full name
  (\<^verbatim>\<open>elemID.getFullName()\<close>); what else an element holds is its value \<open>val\<close>.
\<close>

record ElemID =
  adapter :: string
  getFullName :: string

record 'v element =
  elemID :: ElemID
  val :: 'v

type_synonym 'v store = "ref \<Rightarrow> 'v element"

text \<open>
  Modelled from the spec: the \<^verbatim>\<open>Change\<close> type of the adapter API and its two helpers
  \<^verbatim>\<open>getChangeData\<close> and \<^verbatim>\<open>isAdditionOrModificationChange\<close>, which are imported
  by the source and not part of it. An addition has only an "after" element, a removal only
  a "before" element, a modification has both; the data of a change is its "before" element
  for a removal and its "after" element otherwise.
\<close>

datatype change =
    Addition ref
  | Modification ref ref
  | Removal ref

fun getChangeData :: "change \<Rightarrow> ref" where
  "getChangeData (Addition a) = a"
| "getChangeData (Modification b a) = a"
| "getChangeData (Removal b) = b"

fun isAdditionOrModificationChange :: "change \<Rightarrow> bool" where
  "isAdditionOrModificationChange (Addition a) = True"
| "isAdditionOrModificationChange (Modification b a) = True"
| "isAdditionOrModificationChange (Removal b) = False"

text \<open>
  Modelled from the spec: the plan item, imported by the source. It carries a group key
  and the ordered collection of the changes of the group; \<open>items\<close> lists them in the
  iteration order of \<^verbatim>\<open>item.items.values()\<close>, and \<^verbatim>\<open>planItem.changes()\<close> iterates
  the same collection.
\<close>

record PlanItem =
  groupKey :: string
  items :: "change list"

definition changes :: "PlanItem \<Rightarrow> change list" where
  "changes planItem = items planItem"

section \<open>updatePlanElement\<close>

text \<open>
  lodash \<^verbatim>\<open>_.keyBy(collection, iteratee)\<close>: an object holding, under each key, the last
  element of the collection that produced this key.
\<close>

definition keyBy :: "'a list \<Rightarrow> ('a \<Rightarrow> string) \<Rightarrow> (string \<rightharpoonup> 'a)" where
  "keyBy collection iteratee = foldl (\<lambda>m x. m(iteratee x \<mapsto> x)) Map.empty collection"

text \<open>
  The body of the \<^verbatim>\<open>forEach\<close> callback of \<^verbatim>\<open>updatePlanElement\<close>. The two imported
  functions \<^verbatim>\<open>applyDetailedChanges\<close> and \<^verbatim>\<open>detailedCompare\<close> are parameters:
  \<open>detailedCompare p u\<close> is the list of detailed changes between two elements, and
  \<open>applyDetailedChanges p d\<close> is the content of the object \<open>p\<close> after the detailed changes
  \<open>d\<close> have been applied to it in place. The full name of the updated element is read when
  the callback runs, from the store as it is then.
\<close>

definition patchPlanElement ::
  "('v element \<Rightarrow> 'd \<Rightarrow> 'v element) \<Rightarrow> ('v element \<Rightarrow> 'v element \<Rightarrow> 'd) \<Rightarrow>
   (string \<rightharpoonup> ref) \<Rightarrow> 'v store \<Rightarrow> ref \<Rightarrow> 'v store" where
  "patchPlanElement applyDetailedChanges detailedCompare planElementById s updatedElement =
     (case planElementById (getFullName (elemID (s updatedElement))) of
        None \<Rightarrow> s
      | Some planElement \<Rightarrow>
          s(planElement :=
              applyDetailedChanges (s planElement)
                (detailedCompare (s planElement) (s updatedElement))))"

definition updatePlanElement ::
  "('v element \<Rightarrow> 'd \<Rightarrow> 'v element) \<Rightarrow> ('v element \<Rightarrow> 'v element \<Rightarrow> 'd) \<Rightarrow>
   PlanItem \<Rightarrow> change list \<Rightarrow> 'v store \<Rightarrow> 'v store" where
  "updatePlanElement applyDetailedChanges detailedCompare item appliedChanges s =
     (let planElementById =
            keyBy (map getChangeData (items item))
              (\<lambda>changeData. getFullName (elemID (s changeData)))
      in foldl (patchPlanElement applyDetailedChanges detailedCompare planElementById) s
           (map getChangeData (filter isAdditionOrModificationChange appliedChanges)))"

section \<open>Errors, adapters and results\<close>

text \<open>
  Thrown values. \<^verbatim>\<open>Error\<close> and \<^verbatim>\<open>TypeError\<close> are the built-in classes; every error
  carries its message. Modelled from the spec: \<^verbatim>\<open>WalkError\<close> and
  \<^verbatim>\<open>NodeSkippedError\<close> of the dependency graph walker, imported by the source: the
  aggregate failure carries a mapping from node identifier to the error that node raised
  (in insertion order) and, if applicable, a circular-dependency error naming the nodes on
  the cycle; a skip error carries the identifier of the node that caused the skip.
\<close>

datatype CircularDependencyError =
  CircularDependencyError (circularMessage: string) (causingNodeIds: "PlanItemId list")

datatype error =
    is_Error: Error (message: string)
  | is_TypeError: TypeError (message: string)
  | is_NodeSkippedError: NodeSkippedError (message: string) (causingNode: PlanItemId)
  | is_WalkError: WalkError (message: string) (handlerErrors: "(PlanItemId \<times> error) list")
      (circularDependencyError: "CircularDependencyError option")

text \<open>
  \<^verbatim>\<open>Error.prototype.toString\<close>, which \<^verbatim>\<open>Array.prototype.join\<close> applies to each
  error of \<^verbatim>\<open>result.errors\<close>: the name, then the message when it is not empty.
\<close>

fun errorName :: "error \<Rightarrow> string" where
  "errorName (TypeError m) = ''TypeError''"
| "errorName e = ''Error''"

definition toString :: "error \<Rightarrow> string" where
  "toString e = (if message e = [] then errorName e else errorName e @ '': '' @ message e)"

fun join :: "string \<Rightarrow> string list \<Rightarrow> string" where
  "join sep [] = []"
| "join sep [x] = x"
| "join sep (x # y # ys) = x @ sep @ join sep (y # ys)"

record DeployExtraProperties =
  deploymentUrls :: "string list option"

record DeployResult =
  appliedChanges :: "change list"
  errors :: "error list"
  extraProperties :: "DeployExtraProperties option"

datatype ChangeGroup = ChangeGroup (groupID: string) (groupChanges: "change list")

datatype DeployOptions = DeployOptions (changeGroup: ChangeGroup)

text \<open>
  An adapter is an external collaborator: its operations are parameters of the model. An
  operation receives the options and the store of element objects, returns a result or
  throws, and may change the store. \<^verbatim>\<open>validate\<close> is optional.
\<close>

record 'v AdapterOperations =
  deploy :: "DeployOptions \<Rightarrow> 'v store \<Rightarrow> (error + DeployResult) \<times> 'v store"
  validate :: "(DeployOptions \<Rightarrow> 'v store \<Rightarrow> (error + DeployResult) \<times> 'v store) option"

datatype ItemStatus = Started | Finished | ErrorStatus | Cancelled

text \<open>
  What the run does to its environment is recorded as a list of events, in the order of
  the calls: the calls of the \<^verbatim>\<open>reportProgress\<close> callback, of an adapter's
  \<^verbatim>\<open>deploy\<close> or \<^verbatim>\<open>validate\<close> (with the adapter's name) and of the
  \<^verbatim>\<open>postDeployAction\<close> callback.
\<close>

datatype event =
    ReportProgress PlanItem ItemStatus "string option"
  | Deploy string DeployOptions
  | Validate string DeployOptions
  | PostDeployAction "change list"

text \<open>
  The state of one run of \<^verbatim>\<open>deployActions\<close>: the store of element objects, the two
  local arrays \<^verbatim>\<open>appliedChanges\<close> and \<^verbatim>\<open>deploymentUrls\<close>, and the events so far.
\<close>

record 'v run =
  elements :: "'v store"
  runAppliedChanges :: "change list"
  runDeploymentUrls :: "string list"
  events :: "event list"

datatype DeployError = DeployError (elementId: string) (deployErrorMessage: string)

record DeployActionResult =
  resultErrors :: "DeployError list"
  resultAppliedChanges :: "change list"
  resultDeploymentUrls :: "string list"

text \<open>
  Modelled from the spec: the \<^verbatim>\<open>Plan\<close> interface, imported by the source. The
  orchestrator uses its item lookup by identifier, whose declared result is a plan item, and
  its walk operation, which calls a handler on node identifiers and either succeeds or
  raises one failure. The walk is any function that threads the run state through the
  handler calls it makes.
\<close>

record 's Plan =
  getItem :: "PlanItemId \<Rightarrow> PlanItem"
  walkAsync :: "(PlanItemId \<Rightarrow> 's \<Rightarrow> (error + unit) \<times> 's) \<Rightarrow> 's \<Rightarrow> (error + unit) \<times> 's"

section \<open>deployOrValidate and deployAction\<close>

definition deployOrValidate ::
  "'v AdapterOperations \<Rightarrow> string \<Rightarrow> DeployOptions \<Rightarrow> bool \<Rightarrow> 'v run \<Rightarrow>
   (error + DeployResult) \<times> 'v run" where
  "deployOrValidate adapterOperations adapterName opts checkOnly st =
     (if \<not> checkOnly then
        (case deploy adapterOperations opts (elements st) of
           (r, s') \<Rightarrow> (r, st\<lparr>elements := s', events := events st @ [Deploy adapterName opts]\<rparr>))
      else
        (case validate adapterOperations of
           None \<Rightarrow>
             (Inl (Error (''Check-Only deployment is not supported in adapter '' @ adapterName)),
              st)
         | Some validateOperation \<Rightarrow>
             (case validateOperation opts (elements st) of
                (r, s') \<Rightarrow>
                  (r, st\<lparr>elements := s', events := events st @ [Validate adapterName opts]\<rparr>))))"

text \<open>
  \<^verbatim>\<open>changes[0]\<close> of an empty array is \<^verbatim>\<open>undefined\<close>, and reading the data of
  \<^verbatim>\<open>undefined\<close> throws a \<^verbatim>\<open>TypeError\<close>.
\<close>

definition deployAction ::
  "PlanItem \<Rightarrow> (string \<rightharpoonup> 'v AdapterOperations) \<Rightarrow> bool \<Rightarrow> 'v run \<Rightarrow>
   (error + DeployResult) \<times> 'v run" where
  "deployAction planItem adapters checkOnly st =
     (case changes planItem of
        [] \<Rightarrow> (Inl (TypeError ''Cannot read properties of undefined''), st)
      | c # cs \<Rightarrow>
          (let adapterName = adapter (elemID (elements st (getChangeData c)))
           in case adapters adapterName of
                None \<Rightarrow> (Inl (Error (''Missing adapter for '' @ adapterName)), st)
              | Some adapterOperations \<Rightarrow>
                  deployOrValidate adapterOperations adapterName
                    (DeployOptions (ChangeGroup (groupKey planItem) (changes planItem)))
                    checkOnly st))"

section \<open>deployActions\<close>

definition reportProgress :: "PlanItem \<Rightarrow> ItemStatus \<Rightarrow> string option \<Rightarrow> 'v run \<Rightarrow> 'v run" where
  "reportProgress item status details st =
     st\<lparr>events := events st @ [ReportProgress item status details]\<rparr>"

text \<open>The \<^verbatim>\<open>catch\<close> block of the handler: report the error, then throw it again.\<close>

definition rethrow :: "PlanItem \<Rightarrow> error \<Rightarrow> 'v run \<Rightarrow> (error + unit) \<times> 'v run" where
  "rethrow item e st = (Inl e, reportProgress item ErrorStatus (Some (message e)) st)"

definition failedMessage :: "bool \<Rightarrow> PlanItem \<Rightarrow> DeployResult \<Rightarrow> string" where
  "failedMessage checkOnly item result =
     ''Failed to '' @ (if checkOnly then ''validate'' else ''deploy'') @ '' '' @ groupKey item
       @ '' with errors:'' @ [CHR 0x0A] @ join [CHR 0x0A] (map toString (errors result))"

text \<open>
  The handler that \<^verbatim>\<open>deployActions\<close> passes to \<^verbatim>\<open>walkAsync\<close>. The
  \<^verbatim>\<open>postDeployAction\<close> callback is a parameter: it receives the applied changes and
  the store, resolves or rejects, and may change the store.
\<close>

definition deployPlanItem ::
  "'v run Plan \<Rightarrow> (string \<rightharpoonup> 'v AdapterOperations) \<Rightarrow>
   (change list \<Rightarrow> 'v store \<Rightarrow> (error + unit) \<times> 'v store) \<Rightarrow> bool \<Rightarrow>
   ('v element \<Rightarrow> 'd \<Rightarrow> 'v element) \<Rightarrow> ('v element \<Rightarrow> 'v element \<Rightarrow> 'd) \<Rightarrow>
   PlanItemId \<Rightarrow> 'v run \<Rightarrow> (error + unit) \<times> 'v run" where
  "deployPlanItem deployPlan adapters postDeployAction checkOnly applyDetailedChanges
       detailedCompare itemId st =
     (let item = getItem deployPlan itemId;
          st1 = reportProgress item Started None st
      in case deployAction item adapters checkOnly st1 of
           (Inl e, st2) \<Rightarrow> rethrow item e st2
         | (Inr result, st2) \<Rightarrow>
             (let st3 = st2\<lparr>runAppliedChanges := runAppliedChanges st2 @ appliedChanges result\<rparr>;
                  st4 = (case extraProperties result of
                           None \<Rightarrow> st3
                         | Some properties \<Rightarrow>
                             (case deploymentUrls properties of
                                None \<Rightarrow> st3
                              | Some urls \<Rightarrow>
                                  st3\<lparr>runDeploymentUrls := runDeploymentUrls st3 @ urls\<rparr>));
                  st5 = st4\<lparr>elements :=
                          updatePlanElement applyDetailedChanges detailedCompare item
                            (appliedChanges result) (elements st4)\<rparr>;
                  st6 = st5\<lparr>events := events st5 @ [PostDeployAction (appliedChanges result)]\<rparr>
              in case postDeployAction (appliedChanges result) (elements st6) of
                   (Inl e, s') \<Rightarrow> rethrow item e (st6\<lparr>elements := s'\<rparr>)
                 | (Inr u, s') \<Rightarrow>
                     (if errors result \<noteq> [] then
                        rethrow item (Error (failedMessage checkOnly item result))
                          (st6\<lparr>elements := s'\<rparr>)
                      else (Inr (), reportProgress item Finished None (st6\<lparr>elements := s'\<rparr>)))))"

text \<open>The callback of \<^verbatim>\<open>error.handlerErrors.forEach\<close> in the outer \<^verbatim>\<open>catch\<close>.\<close>

definition skippedMessage :: "PlanItemId \<Rightarrow> PlanItemId \<Rightarrow> string" where
  "skippedMessage key causing =
     ''Element '' @ key @ '' was not deployed, as it depends on element '' @ causing
       @ '' which failed to deploy''"

fun handlerErrorCallback ::
  "'s Plan \<Rightarrow> DeployError list \<times> 'v run \<Rightarrow> PlanItemId \<times> error \<Rightarrow> DeployError list \<times> 'v run" where
  "handlerErrorCallback deployPlan (deployErrors, st) (key, NodeSkippedError m causing) =
     (let item = getItem deployPlan key
      in (deployErrors @ [DeployError (groupKey item) (skippedMessage key causing)],
          reportProgress item Cancelled (Some (groupKey (getItem deployPlan causing))) st))"
| "handlerErrorCallback deployPlan (deployErrors, st) (key, nodeError) =
     (let item = getItem deployPlan key
      in (deployErrors @ [DeployError (groupKey item) (message nodeError)], st))"

text \<open>The callback of \<^verbatim>\<open>causingNodeIds.forEach\<close>.\<close>

definition circularCallback ::
  "'s Plan \<Rightarrow> CircularDependencyError \<Rightarrow> DeployError list \<times> 'v run \<Rightarrow> PlanItemId \<Rightarrow>
   DeployError list \<times> 'v run" where
  "circularCallback deployPlan circular acc ident =
     (case acc of (deployErrors, st) \<Rightarrow>
        (let item = getItem deployPlan ident
         in (deployErrors @ [DeployError (groupKey item) (circularMessage circular)],
             reportProgress item ErrorStatus (Some (circularMessage circular)) st)))"

definition initialRun :: "'v store \<Rightarrow> 'v run" where
  "initialRun s = \<lparr>elements = s, runAppliedChanges = [], runDeploymentUrls = [], events = []\<rparr>"

definition deployResult :: "DeployError list \<Rightarrow> 'v run \<Rightarrow> DeployActionResult" where
  "deployResult deployErrors st =
     \<lparr>resultErrors = deployErrors, resultAppliedChanges = runAppliedChanges st,
      resultDeploymentUrls = runDeploymentUrls st\<rparr>"

text \<open>
  \<^verbatim>\<open>deployActions\<close> returns a promise: \<open>Inr\<close> is the value it resolves to, \<open>Inl\<close> the
  error it rejects with. The second component is the state the run leaves behind.
\<close>

definition deployActions ::
  "'v run Plan \<Rightarrow> (string \<rightharpoonup> 'v AdapterOperations) \<Rightarrow>
   (change list \<Rightarrow> 'v store \<Rightarrow> (error + unit) \<times> 'v store) \<Rightarrow> bool \<Rightarrow>
   ('v element \<Rightarrow> 'd \<Rightarrow> 'v element) \<Rightarrow> ('v element \<Rightarrow> 'v element \<Rightarrow> 'd) \<Rightarrow>
   'v store \<Rightarrow> (error + DeployActionResult) \<times> 'v run" where
  "deployActions deployPlan adapters postDeployAction checkOnly applyDetailedChanges
       detailedCompare s =
     (case walkAsync deployPlan
             (deployPlanItem deployPlan adapters postDeployAction checkOnly
                applyDetailedChanges detailedCompare)
             (initialRun s) of
        (Inr u, st) \<Rightarrow> (Inr (deployResult [] st), st)
      | (Inl err, st) \<Rightarrow>
          (case err of
             WalkError m nodeErrors circular \<Rightarrow>
               (let acc = foldl (handlerErrorCallback deployPlan) ([], st) nodeErrors;
                    acc' = (case circular of
                              None \<Rightarrow> acc
                            | Some c \<Rightarrow>
                                foldl (circularCallback deployPlan c) acc (causingNodeIds c))
                in (Inr (deployResult (fst acc') (snd acc')), snd acc'))
           | _ \<Rightarrow> (Inr (deployResult [] st), st)))"

section \<open>A sequential walker\<close>

text \<open>
  Modelled from the spec: the dependency graph walker, imported by the source. This is one
  schedule the walker may follow, used for the concrete runs below: the nodes are visited
  in the plan's evaluation order; a node with a failed or skipped dependency is skipped and
  tagged with the node whose handler failed, and its handler is not called; a node all of
  whose dependencies succeeded runs its handler; a node with a dependency that can no
  longer complete is reported as part of a circular dependency. The walk succeeds only if
  every handler completed; otherwise it raises the aggregate failure.
\<close>

fun walkNodes ::
  "(PlanItemId \<Rightarrow> PlanItemId list) \<Rightarrow> (PlanItemId \<Rightarrow> 's \<Rightarrow> (error + unit) \<times> 's) \<Rightarrow>
   PlanItemId list \<Rightarrow> PlanItemId list \<Rightarrow> (PlanItemId \<times> error) list \<Rightarrow> PlanItemId list \<Rightarrow> 's \<Rightarrow>
   ((PlanItemId \<times> error) list \<times> PlanItemId list) \<times> 's" where
  "walkNodes dependsOn handler [] succeeded failed circular st = ((failed, circular), st)"
| "walkNodes dependsOn handler (n # ns) succeeded failed circular st =
     (case find (\<lambda>d. d \<in> set (map fst failed)) (dependsOn n) of
        Some d \<Rightarrow>
          (let causing = (case map_of failed d of
                            Some (NodeSkippedError m c) \<Rightarrow> c
                          | _ \<Rightarrow> d)
           in walkNodes dependsOn handler ns succeeded
                (failed @ [(n, NodeSkippedError (''Skipped due to an error in node '' @ causing)
                                 causing)])
                circular st)
      | None \<Rightarrow>
          (if list_all (\<lambda>d. d \<in> set succeeded) (dependsOn n) then
             (case handler n st of
                (Inl e, st') \<Rightarrow>
                  walkNodes dependsOn handler ns succeeded (failed @ [(n, e)]) circular st'
              | (Inr u, st') \<Rightarrow>
                  walkNodes dependsOn handler ns (succeeded @ [n]) failed circular st')
           else walkNodes dependsOn handler ns succeeded failed (circular @ [n]) st))"

definition sequentialWalk ::
  "(PlanItemId \<Rightarrow> PlanItemId list) \<Rightarrow> PlanItemId list \<Rightarrow>
   (PlanItemId \<Rightarrow> 's \<Rightarrow> (error + unit) \<times> 's) \<Rightarrow> 's \<Rightarrow> (error + unit) \<times> 's" where
  "sequentialWalk dependsOn order handler st =
     (case walkNodes dependsOn handler order [] [] [] st of
        ((failed, circular), st') \<Rightarrow>
          (if failed = [] \<and> circular = [] then (Inr (), st')
           else (Inl (WalkError ''At least one error encountered during walk'' failed
                       (if circular = [] then None
                        else Some (CircularDependencyError
                               (''Circular dependencies exist among these items: ''
                                  @ join '', '' circular) circular))),
                 st')))"

section \<open>Notions used in the statements\<close>

text \<open>The full name of the element object found at an address.\<close>

abbreviation nameAt :: "'v store \<Rightarrow> ref \<Rightarrow> string" where
  "nameAt s r \<equiv> getFullName (elemID (s r))"

text \<open>The deployment URLs a result carries; none when the property is absent.\<close>

definition resultUrls :: "DeployResult \<Rightarrow> string list" where
  "resultUrls result =
     (case extraProperties result of
        None \<Rightarrow> []
      | Some properties \<Rightarrow> (case deploymentUrls properties of None \<Rightarrow> [] | Some urls \<Rightarrow> urls))"

text \<open>
  Two contracts of the imported diff and patch functions, on elements of the same full
  name: patching keeps the full name of the patched element; patching an element with its
  differences to another one makes it equal to that one.
\<close>

definition keepsName ::
  "('v element \<Rightarrow> 'd \<Rightarrow> 'v element) \<Rightarrow> ('v element \<Rightarrow> 'v element \<Rightarrow> 'd) \<Rightarrow> bool" where
  "keepsName ap dc \<longleftrightarrow>
     (\<forall>p u. getFullName (elemID p) = getFullName (elemID u) \<longrightarrow>
            getFullName (elemID (ap p (dc p u))) = getFullName (elemID p))"

definition exactPatch ::
  "('v element \<Rightarrow> 'd \<Rightarrow> 'v element) \<Rightarrow> ('v element \<Rightarrow> 'v element \<Rightarrow> 'd) \<Rightarrow> bool" where
  "exactPatch ap dc \<longleftrightarrow>
     (\<forall>p u. getFullName (elemID p) = getFullName (elemID u) \<longrightarrow> ap p (dc p u) = u)"

text \<open>An index by full name agrees with a store when every entry is filed under its name.\<close>

definition indexOk :: "(string \<rightharpoonup> ref) \<Rightarrow> 'v store \<Rightarrow> bool" where
  "indexOk idx s \<longleftrightarrow> (\<forall>n p. idx n = Some p \<longrightarrow> getFullName (elemID (s p)) = n)"

section \<open>A concrete run\<close>

text \<open>
  The simplest diff and patch pair: the difference to an element is that element, and
  applying it overwrites the patched object.
\<close>

definition overwriteApply :: "'v element \<Rightarrow> 'v element \<Rightarrow> 'v element" where
  "overwriteApply planElement detailedChanges = detailedChanges"

definition overwriteCompare :: "'v element \<Rightarrow> 'v element \<Rightarrow> 'v element" where
  "overwriteCompare before after = after"

definition exElement :: "string \<Rightarrow> nat \<Rightarrow> nat element" where
  "exElement name v = \<lparr>elemID = \<lparr>adapter = ''salto'', getFullName = name\<rparr>, val = v\<rparr>"

text \<open>
  Addresses 0 and 1 hold the elements of the plan, addresses 10 to 13 the elements an
  adapter returns; 10 and 13 both carry the full name of the plan element at 0.
\<close>

definition exStore :: "nat store" where
  "exStore = (\<lambda>r. exElement ''salto.unused'' 0)
     (0 := exElement ''salto.x'' 0, 1 := exElement ''salto.y'' 0,
      10 := exElement ''salto.x'' 5, 11 := exElement ''salto.y'' 6,
      12 := exElement ''salto.z'' 7, 13 := exElement ''salto.x'' 8)"

definition exItem :: PlanItem where
  "exItem = \<lparr>groupKey = ''group1'', items = [Addition 0, Modification 2 1]\<rparr>"

definition exItemB :: PlanItem where
  "exItemB = \<lparr>groupKey = ''groupB'', items = [Removal 1]\<rparr>"

definition exEmptyItem :: PlanItem where
  "exEmptyItem = \<lparr>groupKey = ''empty'', items = []\<rparr>"

definition exApplied :: "change list" where
  "exApplied = [Modification 0 10, Removal 11, Addition 12]"

definition exAppliedTwice :: "change list" where
  "exAppliedTwice = [Addition 10, Addition 13]"

definition exResult :: DeployResult where
  "exResult = \<lparr>appliedChanges = [Modification 0 10, Removal 11, Addition 12],
               errors = [Error ''quota exceeded''],
               extraProperties = Some \<lparr>deploymentUrls = Some [''https://example.com/deploy/1'']\<rparr>\<rparr>"

text \<open>
  An adapter without \<^verbatim>\<open>validate\<close>: it applies the changes of \<open>exResult\<close> and reports an
  error for the group \<open>group1\<close>, and applies every change of any other group.
\<close>

definition exAdapter :: "nat AdapterOperations" where
  "exAdapter =
     \<lparr>deploy = (\<lambda>opts s.
          if groupID (changeGroup opts) = ''group1'' then (Inr exResult, s)
          else (Inr \<lparr>appliedChanges = groupChanges (changeGroup opts), errors = [],
                     extraProperties = None\<rparr>, s)),
      validate = None\<rparr>"

definition exValidatingAdapter :: "nat AdapterOperations" where
  "exValidatingAdapter =
     exAdapter\<lparr>validate := Some (\<lambda>opts s.
        (Inr \<lparr>appliedChanges = [], errors = [], extraProperties = None\<rparr>, s))\<rparr>"

definition exAdapters :: "string \<rightharpoonup> nat AdapterOperations" where
  "exAdapters = [''salto'' \<mapsto> exAdapter]"

definition exPostDeployAction :: "change list \<Rightarrow> nat store \<Rightarrow> (error + unit) \<times> nat store" where
  "exPostDeployAction applied s = (Inr (), s)"

text \<open>
  Two more hooks: one that saves, at address 20, how many applied changes it was given,
  and one that fails.
\<close>

definition exSavingPostDeployAction ::
  "change list \<Rightarrow> nat store \<Rightarrow> (error + unit) \<times> nat store" where
  "exSavingPostDeployAction applied s =
     (Inr (), s(20 := exElement ''salto.saved'' (length applied)))"

definition exFailingPostDeployAction ::
  "change list \<Rightarrow> nat store \<Rightarrow> (error + unit) \<times> nat store" where
  "exFailingPostDeployAction applied s = (Inl (Error ''cannot persist''), s)"

text \<open>What the adapter returns for the group of \<open>exItemB\<close>, and the run after that dispatch.\<close>

definition exResultB :: DeployResult where
  "exResultB = \<lparr>appliedChanges = [Removal 1], errors = [], extraProperties = None\<rparr>"

definition exOptionsB :: DeployOptions where
  "exOptionsB = DeployOptions (ChangeGroup ''groupB'' [Removal 1])"

definition exDispatchedB :: "nat run" where
  "exDispatchedB =
     \<lparr>elements = exStore, runAppliedChanges = [], runDeploymentUrls = [],
      events = [ReportProgress exItemB Started None, Deploy ''salto'' exOptionsB]\<rparr>"

text \<open>A plan of two items, where \<open>B\<close> depends on \<open>A\<close>, walked sequentially.\<close>

definition exPlan :: "nat run Plan" where
  "exPlan =
     \<lparr>getItem = (\<lambda>itemId. if itemId = ''A'' then exItem else exItemB),
      walkAsync = sequentialWalk (\<lambda>itemId. if itemId = ''B'' then [''A''] else []) [''A'', ''B'']\<rparr>"

text \<open>A plan whose walker fails with an error of its own, which is not a \<^verbatim>\<open>WalkError\<close>.\<close>

definition brokenPlan :: "nat run Plan" where
  "brokenPlan =
     \<lparr>getItem = (\<lambda>itemId. exItem),
      walkAsync = (\<lambda>handler st. (Inl (TypeError ''undefined is not a function''), st))\<rparr>"

text \<open>A plan with no node: its walk succeeds and calls no handler.\<close>

definition idlePlan :: "nat run Plan" where
  "idlePlan =
     \<lparr>getItem = (\<lambda>itemId. exItem),
      walkAsync = (\<lambda>handler st. (Inr (), st))\<rparr>"

definition exOptions :: DeployOptions where
  "exOptions = DeployOptions (ChangeGroup ''group1'' [Addition 0, Modification 2 1])"

definition exDispatched :: "nat run" where
  "exDispatched =
     \<lparr>elements = exStore, runAppliedChanges = [], runDeploymentUrls = [],
      events = [ReportProgress exItem Started None, Deploy ''salto'' exOptions]\<rparr>"

definition exFailure :: error where
  "exFailure =
     Error (''Failed to deploy group1 with errors:'' @ [CHR 0x0A] @ ''Error: quota exceeded'')"

definition exAfterA :: "nat run" where
  "exAfterA =
     \<lparr>elements = exStore(0 := exElement ''salto.x'' 5),
      runAppliedChanges = [Modification 0 10, Removal 11, Addition 12],
      runDeploymentUrls = [''https://example.com/deploy/1''],
      events = [ReportProgress exItem Started None, Deploy ''salto'' exOptions,
                PostDeployAction [Modification 0 10, Removal 11, Addition 12],
                ReportProgress exItem ErrorStatus (Some (message exFailure))]\<rparr>"

definition exWalkError :: error where
  "exWalkError =
     WalkError ''At least one error encountered during walk''
       [(''A'', exFailure),
        (''B'', NodeSkippedError ''Skipped due to an error in node A'' ''A'')] None"

section \<open>Properties of updatePlanElement\<close>

subsection \<open>The index built by keyBy\<close>

lemma keyBy_foldl:
  "foldl (\<lambda>m x. m(f x \<mapsto> x)) m0 xs n =
     (if n \<in> f ` set xs then Some (last (filter (\<lambda>x. f x = n) xs)) else m0 n)"
  by (induction xs arbitrary: m0 rule: rev_induct) auto

lemma keyBy_Some: "keyBy xs f n = Some p \<Longrightarrow> p \<in> set xs \<and> f p = n"
proof -
  assume a: "keyBy xs f n = Some p"
  then have in_img: "n \<in> f ` set xs"
    by (auto simp: keyBy_def keyBy_foldl split: if_splits)
  then have ne: "filter (\<lambda>x. f x = n) xs \<noteq> []"
    by (auto simp: filter_empty_conv)
  from a in_img have "p = last (filter (\<lambda>x. f x = n) xs)"
    by (simp add: keyBy_def keyBy_foldl)
  with ne have "p \<in> set (filter (\<lambda>x. f x = n) xs)"
    using last_in_set by blast
  then show ?thesis by simp
qed

lemma keyBy_None: "keyBy xs f n = None \<longleftrightarrow> n \<notin> f ` set xs"
  by (simp add: keyBy_def keyBy_foldl)

lemma keyBy_indexOk: "indexOk (keyBy ps (nameAt s)) s"
  using keyBy_Some [of ps "nameAt s"] by (auto simp: indexOk_def)

subsection \<open>One pass of the forEach loop\<close>

lemma patch_None:
  "idx (nameAt s u) = None \<Longrightarrow> patchPlanElement ap dc idx s u = s"
  by (simp add: patchPlanElement_def)

lemma patch_frame:
  "patchPlanElement ap dc idx s u r \<noteq> s r \<Longrightarrow> idx (nameAt s u) = Some r"
  by (auto simp: patchPlanElement_def split: option.splits if_splits)

lemma patch_names:
  assumes np: "keepsName ap dc" and ok: "indexOk idx s"
  shows "nameAt (patchPlanElement ap dc idx s u) r = nameAt s r"
proof (cases "idx (nameAt s u)")
  case None
  then show ?thesis by (simp add: patch_None)
next
  case (Some p)
  then have "nameAt s p = nameAt s u" using ok by (simp add: indexOk_def)
  then have "getFullName (elemID (ap (s p) (dc (s p) (s u)))) = nameAt s p"
    using np by (simp add: keepsName_def)
  with Some show ?thesis by (simp add: patchPlanElement_def)
qed

lemma patch_indexOk:
  assumes np: "keepsName ap dc" and ok: "indexOk idx s"
  shows "indexOk idx (patchPlanElement ap dc idx s u)"
  using ok by (simp add: patch_names [OF np ok] indexOk_def)

lemma exact_keeps: "exactPatch ap dc \<Longrightarrow> keepsName ap dc"
  by (simp add: keepsName_def exactPatch_def)

subsection \<open>The whole loop\<close>

text \<open>An address whose content the loop changes is indexed under the name of an update.\<close>

lemma foldl_patch_frame:
  assumes np: "keepsName ap dc"
  shows "indexOk idx s \<Longrightarrow> foldl (patchPlanElement ap dc idx) s us r \<noteq> s r \<Longrightarrow>
         \<exists>u \<in> set us. idx (nameAt s u) = Some r"
proof (induction us arbitrary: s)
  case Nil
  then show ?case by simp
next
  case (Cons u us)
  let ?s1 = "patchPlanElement ap dc idx s u"
  note n1 = patch_names [OF np Cons.prems(1)]
  note ok1 = patch_indexOk [OF np Cons.prems(1), of u]
  show ?case
  proof (cases "?s1 r = s r")
    case True
    with Cons.prems(2) have "foldl (patchPlanElement ap dc idx) ?s1 us r \<noteq> ?s1 r"
      by simp
    then have "\<exists>u \<in> set us. idx (nameAt ?s1 u) = Some r"
      using Cons.IH [OF ok1] by simp
    then show ?thesis by (simp add: n1)
  next
    case False
    then have "idx (nameAt s u) = Some r" by (rule patch_frame)
    then show ?thesis by simp
  qed
qed

text \<open>Updates whose name is not in the index can be dropped from the loop.\<close>

lemma foldl_patch_filter:
  assumes np: "keepsName ap dc" and ok: "indexOk idx s0"
  shows "(\<forall>r. nameAt s r = nameAt s0 r) \<Longrightarrow>
         foldl (patchPlanElement ap dc idx) s (filter (\<lambda>u. idx (nameAt s0 u) \<noteq> None) us)
           = foldl (patchPlanElement ap dc idx) s us"
proof (induction us arbitrary: s)
  case Nil
  then show ?case by simp
next
  case (Cons u us)
  let ?s1 = "patchPlanElement ap dc idx s u"
  have oks: "indexOk idx s" using ok Cons.prems by (simp add: indexOk_def)
  have n1: "\<forall>r. nameAt ?s1 r = nameAt s0 r"
    using patch_names [OF np oks] Cons.prems by simp
  note ih = Cons.IH [OF n1]
  show ?case
  proof (cases "idx (nameAt s0 u)")
    case None
    then have "?s1 = s" using Cons.prems by (simp add: patch_None)
    with None Cons.IH [OF Cons.prems] show ?thesis by simp
  next
    case (Some p)
    with ih show ?thesis by simp
  qed
qed

text \<open>
  When a name is carried by one element \<open>u\<close> only among the updates, the plan element
  indexed under that name ends up with the content of \<open>u\<close>, and \<open>u\<close> keeps its content.
\<close>

lemma foldl_patch_target:
  assumes contract: "exactPatch ap dc" and ok: "indexOk idx s0"
    and p: "idx n = Some p" and u: "nameAt s0 u = n"
  shows "(\<forall>r. nameAt s r = nameAt s0 r) \<Longrightarrow>
         (\<forall>u' \<in> set us. nameAt s0 u' = n \<longrightarrow> u' = u) \<Longrightarrow> s u = s0 u \<Longrightarrow>
         (u \<in> set us \<or> s p = s0 u) \<Longrightarrow>
         foldl (patchPlanElement ap dc idx) s us p = s0 u \<and>
         foldl (patchPlanElement ap dc idx) s us u = s0 u"
proof (induction us arbitrary: s)
  case Nil
  then show ?case by simp
next
  case (Cons u1 rest)
  let ?s1 = "patchPlanElement ap dc idx s u1"
  note np = exact_keeps [OF contract]
  have oks: "indexOk idx s" using ok Cons.prems(1) by (simp add: indexOk_def)
  have n1: "\<forall>r. nameAt ?s1 r = nameAt s0 r"
    using patch_names [OF np oks] Cons.prems(1) by simp
  have pn: "nameAt s0 p = n" using ok p by (simp add: indexOk_def)
  have uniq: "\<forall>u' \<in> set rest. nameAt s0 u' = n \<longrightarrow> u' = u"
    using Cons.prems(2) by simp
  show ?case
  proof (cases "nameAt s0 u1 = n")
    case True
    then have u1: "u1 = u" using Cons.prems(2) by simp
    have i: "idx (nameAt s u) = Some p" using p u Cons.prems(1) by simp
    have "nameAt s p = nameAt s u" using pn u Cons.prems(1) by simp
    then have "ap (s p) (dc (s p) (s u)) = s u"
      using contract by (simp add: exactPatch_def)
    with i u1 have s1: "?s1 = s(p := s u)" by (simp add: patchPlanElement_def)
    have "?s1 u = s0 u" "?s1 p = s0 u" using Cons.prems(3) by (simp_all add: s1)
    then show ?thesis using Cons.IH [OF n1 uniq] by simp
  next
    case False
    have keep: "?s1 r = s r" if "nameAt s0 r = n" for r
    proof (rule ccontr)
      assume "?s1 r \<noteq> s r"
      then have "idx (nameAt s u1) = Some r" by (rule patch_frame)
      then have "nameAt s0 r = nameAt s u1" using ok by (simp add: indexOk_def)
      with that False Cons.prems(1) show False by simp
    qed
    have "u1 \<noteq> u" using False u by auto
    then have "u \<in> set rest \<or> ?s1 p = s0 u"
      using Cons.prems(4) keep [OF pn] by auto
    moreover have "?s1 u = s0 u" using keep [OF u] Cons.prems(3) by simp
    ultimately show ?thesis using Cons.IH [OF n1 uniq] by simp
  qed
qed

subsection \<open>The concrete update\<close>

lemma overwrite_exact:
  "overwriteApply p (overwriteCompare p u) = u"
  by (simp add: overwriteApply_def overwriteCompare_def)

lemma ex_update:
  "updatePlanElement overwriteApply overwriteCompare exItem exApplied exStore
     = exStore(0 := exElement ''salto.x'' 5)"
  by (simp add: updatePlanElement_def keyBy_def patchPlanElement_def exItem_def exApplied_def
      exStore_def exElement_def overwrite_exact)

subsection \<open>Claims about updatePlanElement\<close>

text \<open>
  C9. Calling \<^verbatim>\<open>updatePlanElement\<close> with an empty list of applied changes leaves the
  store of element objects, and so every element of the plan item, unchanged.
\<close>

theorem updatePlanElement_empty_noop:
  "updatePlanElement applyDetailedChanges detailedCompare item [] s = s"
  by (simp add: updatePlanElement_def)

text \<open>
  C2, as amended. Let \<open>a\<close> be an applied addition or modification whose element has the
  full name of the element of a change \<open>c\<close> of the plan item. If among the applied
  additions and modifications this name is carried by the element of \<open>a\<close> only, and among
  the changes of the plan item by the element of \<open>c\<close> only, then after
  \<^verbatim>\<open>updatePlanElement\<close> the plan element is equal to the "after" value the applied
  change carries, which is itself unchanged. The diff and patch functions are assumed to
  make an element equal to the one it is compared with.
\<close>

theorem updatePlanElement_patches_matching:
  assumes contract: "\<And>p u. getFullName (elemID p) = getFullName (elemID u) \<Longrightarrow>
                        applyDetailedChanges p (detailedCompare p u) = u"
    and a: "a \<in> set applied" "isAdditionOrModificationChange a"
    and c: "c \<in> set (items item)"
    and match: "getFullName (elemID (s (getChangeData c)))
                  = getFullName (elemID (s (getChangeData a)))"
    and oneApplied: "\<forall>a' \<in> set applied. isAdditionOrModificationChange a' \<and>
          getFullName (elemID (s (getChangeData a'))) = getFullName (elemID (s (getChangeData a)))
          \<longrightarrow> getChangeData a' = getChangeData a"
    and onePlan: "\<forall>c' \<in> set (items item).
          getFullName (elemID (s (getChangeData c'))) = getFullName (elemID (s (getChangeData c)))
          \<longrightarrow> getChangeData c' = getChangeData c"
  shows "updatePlanElement applyDetailedChanges detailedCompare item applied s (getChangeData c)
           = s (getChangeData a) \<and>
         updatePlanElement applyDetailedChanges detailedCompare item applied s (getChangeData a)
           = s (getChangeData a)"
proof -
  let ?ps = "map getChangeData (items item)"
  let ?us = "map getChangeData (filter isAdditionOrModificationChange applied)"
  let ?idx = "keyBy ?ps (nameAt s)"
  let ?n = "nameAt s (getChangeData a)"
  have ex: "exactPatch applyDetailedChanges detailedCompare"
    using contract by (simp add: exactPatch_def)
  have ok: "indexOk ?idx s" by (rule keyBy_indexOk)
  have "?n \<in> nameAt s ` set ?ps"
    using c match by (intro image_eqI [where x = "getChangeData c"]) simp_all
  then obtain p where p: "?idx ?n = Some p"
    using keyBy_None [of ?ps "nameAt s" ?n] by fastforce
  then have "p \<in> set ?ps" "nameAt s p = ?n"
    using keyBy_Some [OF p] by simp_all
  then have "p = getChangeData c" using onePlan match by auto
  with p have idx: "?idx ?n = Some (getChangeData c)" by simp
  have uniq: "\<forall>u' \<in> set ?us. nameAt s u' = ?n \<longrightarrow> u' = getChangeData a"
    using oneApplied by auto
  have "getChangeData a \<in> set ?us" using a by simp
  then show ?thesis
    using foldl_patch_target [OF ex ok idx refl, of s ?us] uniq
    by (simp add: updatePlanElement_def)
qed

text \<open>
  The amended statement at the modification of the element at address 0: the plan element
  takes the value the adapter returned at address 10.
\<close>

theorem updatePlanElement_patches_matching_witness:
  "Modification 0 10 \<in> set exApplied \<and> Addition 0 \<in> set (items exItem) \<and>
   updatePlanElement overwriteApply overwriteCompare exItem exApplied exStore 0
     = exElement ''salto.x'' 5 \<and>
   exStore 10 = exElement ''salto.x'' 5"
  using updatePlanElement_patches_matching [of overwriteApply overwriteCompare
      "Modification 0 10" exApplied "Addition 0" exItem exStore]
  by (simp add: overwrite_exact exApplied_def exItem_def exStore_def exElement_def)

text \<open>
  C2 as stated fails when two applied additions carry the same full name with different
  values: the plan element ends up equal to the value of the last one, not of the first.
\<close>

theorem updatePlanElement_duplicate_counterexample:
  "Addition 10 \<in> set exAppliedTwice \<and> isAdditionOrModificationChange (Addition 10) \<and>
   Addition 0 \<in> set (items exItem) \<and>
   getFullName (elemID (exStore (getChangeData (Addition 0))))
     = getFullName (elemID (exStore (getChangeData (Addition 10)))) \<and>
   updatePlanElement overwriteApply overwriteCompare exItem exAppliedTwice exStore
       (getChangeData (Addition 0))
     \<noteq> exStore (getChangeData (Addition 10))"
  by (simp add: updatePlanElement_def keyBy_def patchPlanElement_def exItem_def
      exAppliedTwice_def exStore_def exElement_def overwrite_exact)

text \<open>
  C10. \<^verbatim>\<open>updatePlanElement\<close> returns a store and raises nothing. An address whose
  content it changes holds an element of the plan item whose full name is the full name of
  an applied addition or modification; every other address keeps its content. Removals
  cause no mutation: dropping them from the applied changes gives the same store. Applied
  changes whose full name matches no element of the plan item are ignored: dropping them
  gives the same store. The patch is assumed to keep the full name of the element it
  patches.
\<close>

theorem updatePlanElement_frame:
  assumes keeps: "\<And>p u. getFullName (elemID p) = getFullName (elemID u) \<Longrightarrow>
      getFullName (elemID (applyDetailedChanges p (detailedCompare p u))) = getFullName (elemID p)"
  shows "(updatePlanElement applyDetailedChanges detailedCompare item applied s r \<noteq> s r \<longrightarrow>
            (\<exists>c \<in> set (items item). \<exists>a \<in> set applied.
               r = getChangeData c \<and> isAdditionOrModificationChange a \<and>
               getFullName (elemID (s (getChangeData a))) = getFullName (elemID (s r)))) \<and>
         updatePlanElement applyDetailedChanges detailedCompare item
             (filter isAdditionOrModificationChange applied) s
           = updatePlanElement applyDetailedChanges detailedCompare item applied s \<and>
         updatePlanElement applyDetailedChanges detailedCompare item
             (filter (\<lambda>a. \<exists>c \<in> set (items item).
                getFullName (elemID (s (getChangeData c)))
                  = getFullName (elemID (s (getChangeData a))))
              applied) s
           = updatePlanElement applyDetailedChanges detailedCompare item applied s"
proof -
  let ?ps = "map getChangeData (items item)"
  let ?us = "map getChangeData (filter isAdditionOrModificationChange applied)"
  let ?idx = "keyBy ?ps (nameAt s)"
  let ?step = "patchPlanElement applyDetailedChanges detailedCompare ?idx"
  let ?inPlan = "\<lambda>a. \<exists>c \<in> set (items item).
                getFullName (elemID (s (getChangeData c))) = getFullName (elemID (s (getChangeData a)))"
  have np: "keepsName applyDetailedChanges detailedCompare"
    using keeps by (simp add: keepsName_def)
  have ok: "indexOk ?idx s" by (rule keyBy_indexOk)
  have frame: "\<exists>c \<in> set (items item). \<exists>a \<in> set applied.
               r = getChangeData c \<and> isAdditionOrModificationChange a \<and>
               nameAt s (getChangeData a) = nameAt s r"
    if ch: "updatePlanElement applyDetailedChanges detailedCompare item applied s r \<noteq> s r"
  proof -
    from ch have "foldl ?step s ?us r \<noteq> s r" by (simp add: updatePlanElement_def)
    then obtain u where u: "u \<in> set ?us" "?idx (nameAt s u) = Some r"
      using foldl_patch_frame [OF np ok] by blast
    from u(2) have "r \<in> set ?ps" "nameAt s r = nameAt s u"
      using keyBy_Some [OF u(2)] by simp_all
    with u(1) show ?thesis by auto
  qed
  have removals: "updatePlanElement applyDetailedChanges detailedCompare item
             (filter isAdditionOrModificationChange applied) s
           = updatePlanElement applyDetailedChanges detailedCompare item applied s"
    by (simp add: updatePlanElement_def)
  have inPlan: "?idx (nameAt s (getChangeData a)) \<noteq> None \<longleftrightarrow> ?inPlan a" for a
    unfolding keyBy_None image_iff by (simp, metis)
  have "map getChangeData (filter isAdditionOrModificationChange (filter ?inPlan applied))
      = filter (\<lambda>u. ?idx (nameAt s u) \<noteq> None) ?us"
    using inPlan by (simp add: filter_map comp_def conj_commute del: not_None_eq)
  then have unmatched: "updatePlanElement applyDetailedChanges detailedCompare item
             (filter ?inPlan applied) s
           = updatePlanElement applyDetailedChanges detailedCompare item applied s"
    using foldl_patch_filter [OF np ok, of s ?us] by (simp add: updatePlanElement_def)
  from frame removals unmatched show ?thesis by blast
qed

text \<open>
  The frame statement on the concrete update: address 0 changes and is a plan element
  matched by an applied modification; the removal at 11 and the unmatched addition at 12
  can be dropped.
\<close>

theorem updatePlanElement_frame_witness:
  "updatePlanElement overwriteApply overwriteCompare exItem exApplied exStore 0 \<noteq> exStore 0 \<and>
   (\<exists>c \<in> set (items exItem). \<exists>a \<in> set exApplied.
      0 = getChangeData c \<and> isAdditionOrModificationChange a \<and>
      getFullName (elemID (exStore (getChangeData a))) = getFullName (elemID (exStore 0))) \<and>
   updatePlanElement overwriteApply overwriteCompare exItem [Modification 0 10] exStore
     = updatePlanElement overwriteApply overwriteCompare exItem exApplied exStore"
proof -
  have "updatePlanElement overwriteApply overwriteCompare exItem exApplied exStore 0 \<noteq> exStore 0"
    by (simp add: ex_update) (simp add: exStore_def exElement_def)
  moreover have "filter (\<lambda>a. \<exists>c \<in> set (items exItem).
        getFullName (elemID (exStore (getChangeData c)))
          = getFullName (elemID (exStore (getChangeData a)))) exApplied
      = [Modification 0 10, Removal 11]"
    by (simp add: exApplied_def exItem_def exStore_def exElement_def)
  moreover have "filter isAdditionOrModificationChange [Modification 0 10, Removal 11]
      = [Modification 0 10]"
    by simp
  ultimately show ?thesis
    using updatePlanElement_frame [of overwriteApply overwriteCompare exItem exApplied exStore 0]
      updatePlanElement_frame [of overwriteApply overwriteCompare exItem
        "[Modification 0 10, Removal 11]" exStore 0]
    by (simp add: overwrite_exact)
qed

section \<open>Properties of the dispatch\<close>

text \<open>
  C5. If \<^verbatim>\<open>checkOnly\<close> is set and the adapter has no \<^verbatim>\<open>validate\<close> operation, the
  dispatch fails with the error naming the adapter, and no adapter operation is called: the
  state is unchanged. If \<^verbatim>\<open>checkOnly\<close> is not set, \<^verbatim>\<open>deploy\<close> is called, once, and
  \<^verbatim>\<open>validate\<close> is not: the outcome does not depend on it. If \<^verbatim>\<open>checkOnly\<close> is set
  and \<^verbatim>\<open>validate\<close> exists, it is called, once, and \<^verbatim>\<open>deploy\<close> is not: with
  \<^verbatim>\<open>checkOnly\<close> set the outcome does not depend on \<^verbatim>\<open>deploy\<close>.
\<close>

theorem deployOrValidate_gate:
  "(checkOnly \<and> validate a = None \<longrightarrow>
      deployOrValidate a name opts checkOnly st
        = (Inl (Error (''Check-Only deployment is not supported in adapter '' @ name)), st)) \<and>
   (\<not> checkOnly \<longrightarrow>
      deployOrValidate a name opts checkOnly st
        = (fst (deploy a opts (elements st)),
           st\<lparr>elements := snd (deploy a opts (elements st)),
              events := events st @ [Deploy name opts]\<rparr>) \<and>
      (\<forall>v. deployOrValidate (a\<lparr>validate := v\<rparr>) name opts checkOnly st
             = deployOrValidate a name opts checkOnly st)) \<and>
   (\<forall>v. checkOnly \<and> validate a = Some v \<longrightarrow>
      deployOrValidate a name opts checkOnly st
        = (fst (v opts (elements st)),
           st\<lparr>elements := snd (v opts (elements st)),
              events := events st @ [Validate name opts]\<rparr>)) \<and>
   (checkOnly \<longrightarrow>
      (\<forall>d. deployOrValidate (a\<lparr>deploy := d\<rparr>) name opts checkOnly st
             = deployOrValidate a name opts checkOnly st))"
  by (auto simp: deployOrValidate_def split: prod.splits option.splits)

theorem deployOrValidate_gate_witness:
  "validate exAdapter = None \<and>
   deployOrValidate exAdapter ''salto'' exOptions True (initialRun exStore)
     = (Inl (Error ''Check-Only deployment is not supported in adapter salto''),
        initialRun exStore) \<and>
   events (snd (deployOrValidate exAdapter ''salto'' exOptions False (initialRun exStore)))
     = [Deploy ''salto'' exOptions] \<and>
   (\<exists>v. validate exValidatingAdapter = Some v) \<and>
   events (snd (deployOrValidate exValidatingAdapter ''salto'' exOptions True (initialRun exStore)))
     = [Validate ''salto'' exOptions]"
  using deployOrValidate_gate [of True exAdapter "''salto''" exOptions "initialRun exStore"]
    deployOrValidate_gate [of False exAdapter "''salto''" exOptions "initialRun exStore"]
    deployOrValidate_gate [of True exValidatingAdapter "''salto''" exOptions "initialRun exStore"]
  by (simp add: exAdapter_def exValidatingAdapter_def initialRun_def)

text \<open>
  C8. \<^verbatim>\<open>deployAction\<close> takes the adapter name from the first change of the plan item
  and has no guard for an empty change list: with no change the read of the first element
  is out of bounds and the call throws a \<^verbatim>\<open>TypeError\<close> before any adapter is looked up;
  with at least one change the adapter is the one named by the first change, and the
  dispatch receives the group key and all the changes.
\<close>

theorem deployAction_first_change:
  "(changes planItem = [] \<longrightarrow>
      (\<exists>m. deployAction planItem adapters checkOnly st = (Inl (TypeError m), st))) \<and>
   (\<forall>c cs. changes planItem = c # cs \<longrightarrow>
      deployAction planItem adapters checkOnly st
        = (case adapters (adapter (elemID (elements st (getChangeData c)))) of
             None \<Rightarrow>
               (Inl (Error (''Missing adapter for ''
                  @ adapter (elemID (elements st (getChangeData c))))), st)
           | Some a \<Rightarrow>
               deployOrValidate a (adapter (elemID (elements st (getChangeData c))))
                 (DeployOptions (ChangeGroup (groupKey planItem) (c # cs))) checkOnly st))"
  by (auto simp: deployAction_def Let_def split: option.splits)

lemma ex_adapter_name: "adapter (elemID (exStore 0)) = ''salto''"
  by (simp add: exStore_def exElement_def)

theorem deployAction_first_change_witness:
  "changes exEmptyItem = [] \<and>
   (\<exists>m. deployAction exEmptyItem exAdapters False (initialRun exStore)
          = (Inl (TypeError m), initialRun exStore)) \<and>
   changes exItem = [Addition 0, Modification 2 1] \<and>
   deployAction exItem exAdapters False (initialRun exStore)
     = deployOrValidate exAdapter ''salto'' exOptions False (initialRun exStore)"
  using deployAction_first_change [of exEmptyItem exAdapters False "initialRun exStore"]
    deployAction_first_change [of exItem exAdapters False "initialRun exStore"]
  by (simp add: changes_def exEmptyItem_def exItem_def exAdapters_def exOptions_def
      initialRun_def ex_adapter_name)

section \<open>Properties of the handler of one plan item\<close>

lemma deployOrValidate_run:
  "deployOrValidate a name opts checkOnly st = (r, st') \<Longrightarrow>
   runAppliedChanges st' = runAppliedChanges st \<and> runDeploymentUrls st' = runDeploymentUrls st \<and>
   (\<exists>es. events st' = events st @ es \<and>
      (es = [] \<or> es = [Deploy name opts] \<or> es = [Validate name opts]) \<and>
      (es = [] \<longrightarrow> (\<exists>e. r = Inl e)))"
  by (auto simp: deployOrValidate_def split: prod.splits option.splits if_splits)

lemma deployAction_run:
  assumes "deployAction item adapters checkOnly st = (r, st')"
  shows "runAppliedChanges st' = runAppliedChanges st \<and> runDeploymentUrls st' = runDeploymentUrls st"
    and "r = Inr result \<Longrightarrow>
         \<exists>call. events st' = events st @ [call] \<and>
           (\<exists>name opts. call = Deploy name opts \<or> call = Validate name opts)"
proof -
  show "runAppliedChanges st' = runAppliedChanges st \<and> runDeploymentUrls st' = runDeploymentUrls st"
    using assms deployOrValidate_run
    by (fastforce simp: deployAction_def Let_def split: list.splits option.splits)
  show "\<exists>call. events st' = events st @ [call] \<and>
          (\<exists>name opts. call = Deploy name opts \<or> call = Validate name opts)"
    if "r = Inr result"
    using assms that deployOrValidate_run [of _ _ _ checkOnly st r st']
    by (fastforce simp: deployAction_def Let_def split: list.splits option.splits)
qed

lemma push_urls:
  "(case extraProperties result of
      None \<Rightarrow> st3
    | Some properties \<Rightarrow>
        (case deploymentUrls properties of
           None \<Rightarrow> st3
         | Some urls \<Rightarrow> st3\<lparr>runDeploymentUrls := runDeploymentUrls st3 @ urls\<rparr>))
   = st3\<lparr>runDeploymentUrls := runDeploymentUrls st3 @ resultUrls result\<rparr>"
  by (simp add: resultUrls_def split: option.splits)

text \<open>The handler after a dispatch that returned a result.\<close>

lemma deployPlanItem_dispatched:
  assumes dispatch: "deployAction (getItem deployPlan itemId) adapters checkOnly
             (reportProgress (getItem deployPlan itemId) Started None st) = (Inr result, st2)"
  shows "deployPlanItem deployPlan adapters postDeployAction checkOnly ap dc itemId st =
     (let item = getItem deployPlan itemId;
          st6 = st2\<lparr>runAppliedChanges := runAppliedChanges st2 @ appliedChanges result,
                   runDeploymentUrls := runDeploymentUrls st2 @ resultUrls result,
                   elements := updatePlanElement ap dc item (appliedChanges result) (elements st2),
                   events := events st2 @ [PostDeployAction (appliedChanges result)]\<rparr>
      in case postDeployAction (appliedChanges result) (elements st6) of
           (Inl e, s') \<Rightarrow> rethrow item e (st6\<lparr>elements := s'\<rparr>)
         | (Inr u, s') \<Rightarrow>
             (if errors result \<noteq> [] then
                rethrow item (Error (failedMessage checkOnly item result)) (st6\<lparr>elements := s'\<rparr>)
              else (Inr (), reportProgress item Finished None (st6\<lparr>elements := s'\<rparr>))))"
  using dispatch
  by (simp add: deployPlanItem_def Let_def push_urls split: prod.splits sum.splits)

lemma dispatched_events:
  assumes dispatch: "deployAction item adapters checkOnly (reportProgress item Started None st)
             = (Inr result, st2)"
  shows "runAppliedChanges st2 = runAppliedChanges st"
    and "runDeploymentUrls st2 = runDeploymentUrls st"
    and "\<exists>call. events st2 = events st @ [ReportProgress item Started None, call] \<and>
           (\<exists>name opts. call = Deploy name opts \<or> call = Validate name opts)"
  using deployAction_run [OF dispatch]
  by (auto simp: reportProgress_def)

text \<open>A handler call only appends to the two run-wide lists.\<close>

lemma deployPlanItem_accumulates:
  "\<exists>cs us. runAppliedChanges (snd (deployPlanItem deployPlan adapters postDeployAction checkOnly
                 ap dc itemId st)) = runAppliedChanges st @ cs \<and>
           runDeploymentUrls (snd (deployPlanItem deployPlan adapters postDeployAction checkOnly
                 ap dc itemId st)) = runDeploymentUrls st @ us"
proof -
  let ?item = "getItem deployPlan itemId"
  obtain r st2 where d: "deployAction ?item adapters checkOnly
      (reportProgress ?item Started None st) = (r, st2)"
    by (cases "deployAction ?item adapters checkOnly (reportProgress ?item Started None st)")
  have run: "runAppliedChanges st2 = runAppliedChanges st"
    "runDeploymentUrls st2 = runDeploymentUrls st"
    using deployAction_run(1) [OF d] by (simp_all add: reportProgress_def)
  show ?thesis
  proof (cases r)
    case (Inl e)
    with d run show ?thesis
      by (simp add: deployPlanItem_def Let_def rethrow_def reportProgress_def)
  next
    case (Inr result)
    with d have d': "deployAction ?item adapters checkOnly
        (reportProgress ?item Started None st) = (Inr result, st2)"
      by simp
    from run show ?thesis
      by (simp add: deployPlanItem_dispatched [OF d'] Let_def rethrow_def
          reportProgress_def split: prod.splits sum.splits)
  qed
qed

subsection \<open>The handler on the concrete run\<close>

lemma ex_dispatch:
  "deployAction (getItem exPlan ''A'') exAdapters False
     (reportProgress (getItem exPlan ''A'') Started None (initialRun exStore))
   = (Inr exResult, exDispatched)"
  by (simp add: deployAction_def deployOrValidate_def changes_def exPlan_def exItem_def
      exAdapters_def exAdapter_def reportProgress_def initialRun_def ex_adapter_name
      exDispatched_def exOptions_def Let_def)

lemma ex_errors: "errors exResult \<noteq> []"
  by (simp add: exResult_def)

lemma ex_item: "getItem exPlan ''A'' = exItem"
  by (simp add: exPlan_def)

lemma ex_failed_message: "failedMessage False exItem exResult = message exFailure"
  by (simp add: failedMessage_def exFailure_def exItem_def exResult_def toString_def)

lemma ex_failure: "Error (message exFailure) = exFailure"
  by (simp add: exFailure_def)

lemma ex_handlerA:
  "deployPlanItem exPlan exAdapters exPostDeployAction False overwriteApply overwriteCompare
     ''A'' (initialRun exStore) = (Inl exFailure, exAfterA)"
proof -
  have urls: "resultUrls exResult = [''https://example.com/deploy/1'']"
    by (simp add: resultUrls_def exResult_def)
  have applied: "appliedChanges exResult = exApplied"
    by (simp add: exResult_def exApplied_def)
  show ?thesis
    unfolding deployPlanItem_dispatched [OF ex_dispatch] ex_item Let_def
    by (simp add: urls applied ex_errors ex_failed_message ex_failure ex_update
        exPostDeployAction_def rethrow_def reportProgress_def exDispatched_def exAfterA_def)
       (simp add: exApplied_def)
qed

lemma ex_itemB: "getItem exPlan ''B'' = exItemB"
  by (simp add: exPlan_def)

lemma ex_adapter_nameB: "adapter (elemID (exStore (Suc 0))) = ''salto''"
  by (simp add: exStore_def exElement_def)

lemma ex_dispatchB:
  "deployAction (getItem exPlan ''B'') exAdapters False
     (reportProgress (getItem exPlan ''B'') Started None (initialRun exStore))
   = (Inr exResultB, exDispatchedB)"
  by (simp add: deployAction_def deployOrValidate_def changes_def ex_itemB exItemB_def
      exAdapters_def exAdapter_def reportProgress_def initialRun_def ex_adapter_nameB
      exDispatchedB_def exOptionsB_def exResultB_def Let_def)

subsection \<open>Claims about the handler\<close>

text \<open>
  C1. When the dispatch of a plan item returns a result whose error list is not empty, the
  handler raises a failure for the node and does not report the item finished; when it
  raises, every applied change of the result has been appended to the run-wide list of
  applied changes and the deployment URLs of the result to the run-wide list of URLs. The
  failure is the "Failed to deploy" error unless the post-deploy hook failed first.
\<close>

theorem deployPlanItem_adapter_errors:
  assumes dispatch: "deployAction (getItem deployPlan itemId) adapters checkOnly
             (reportProgress (getItem deployPlan itemId) Started None st) = (Inr result, st2)"
    and errs: "errors result \<noteq> []"
  shows "\<exists>e st'. deployPlanItem deployPlan adapters postDeployAction checkOnly ap dc itemId st
             = (Inl e, st') \<and>
           runAppliedChanges st' = runAppliedChanges st @ appliedChanges result \<and>
           runDeploymentUrls st' = runDeploymentUrls st @ resultUrls result \<and>
           events st' = events st2 @
             [PostDeployAction (appliedChanges result),
              ReportProgress (getItem deployPlan itemId) ErrorStatus (Some (message e))] \<and>
           ReportProgress (getItem deployPlan itemId) Finished None
             \<notin> set (drop (length (events st)) (events st')) \<and>
           ((\<exists>s'. postDeployAction (appliedChanges result)
                    (updatePlanElement ap dc (getItem deployPlan itemId) (appliedChanges result)
                       (elements st2)) = (Inr (), s')) \<longrightarrow>
            e = Error (failedMessage checkOnly (getItem deployPlan itemId) result))"
proof -
  let ?item = "getItem deployPlan itemId"
  let ?s5 = "updatePlanElement ap dc ?item (appliedChanges result) (elements st2)"
  obtain call where call: "events st2 = events st @ [ReportProgress ?item Started None, call]"
    "\<exists>name opts. call = Deploy name opts \<or> call = Validate name opts"
    using dispatched_events(3) [OF dispatch] by blast
  note run = dispatched_events(1,2) [OF dispatch]
  show ?thesis
  proof (cases "postDeployAction (appliedChanges result) ?s5")
    case (Pair pr s')
    show ?thesis
    proof (cases pr)
      case (Inl e)
      with Pair errs call run show ?thesis
        by (auto simp: deployPlanItem_dispatched [OF dispatch] Let_def rethrow_def
            reportProgress_def)
    next
      case (Inr u)
      with Pair errs call run show ?thesis
        by (auto simp: deployPlanItem_dispatched [OF dispatch] Let_def rethrow_def
            reportProgress_def)
    qed
  qed
qed

theorem deployPlanItem_adapter_errors_witness:
  "deployAction (getItem exPlan ''A'') exAdapters False
     (reportProgress (getItem exPlan ''A'') Started None (initialRun exStore))
     = (Inr exResult, exDispatched) \<and>
   errors exResult \<noteq> [] \<and>
   (\<exists>st'. deployPlanItem exPlan exAdapters exPostDeployAction False overwriteApply
        overwriteCompare ''A'' (initialRun exStore) = (Inl exFailure, st') \<and>
      runAppliedChanges st' = [Modification 0 10, Removal 11, Addition 12] \<and>
      runDeploymentUrls st' = [''https://example.com/deploy/1''])"
proof -
  from deployPlanItem_adapter_errors [OF ex_dispatch ex_errors, of exPostDeployAction
      overwriteApply overwriteCompare]
  obtain e st' where h: "deployPlanItem exPlan exAdapters exPostDeployAction False overwriteApply
        overwriteCompare ''A'' (initialRun exStore) = (Inl e, st')"
    "runAppliedChanges st' = runAppliedChanges (initialRun exStore) @ appliedChanges exResult"
    "runDeploymentUrls st' = runDeploymentUrls (initialRun exStore) @ resultUrls exResult"
    "(\<exists>s'. exPostDeployAction (appliedChanges exResult)
            (updatePlanElement overwriteApply overwriteCompare (getItem exPlan ''A'')
               (appliedChanges exResult) (elements exDispatched)) = (Inr (), s')) \<longrightarrow>
     e = Error (failedMessage False (getItem exPlan ''A'') exResult)"
    by blast
  from h(4) have "e = exFailure"
    by (simp add: exPostDeployAction_def ex_item ex_failed_message ex_failure)
  with h(1,2,3) show ?thesis
    using ex_dispatch ex_errors
    by (simp add: initialRun_def exResult_def resultUrls_def)
qed

text \<open>
  C7. When the dispatch of a plan item returns a result, the handler calls
  \<^verbatim>\<open>postDeployAction\<close> exactly once, with the applied changes of that result and the
  store as \<^verbatim>\<open>updatePlanElement\<close> left it, whether or not the result carries errors:
  the store the handler leaves is the store the hook returns, a failure of the hook is the
  failure of the handler, and the events of the handler are the start report, the adapter
  call, the hook call and one final report, in this order, so the hook call comes before
  the report that the item finished. The item is reported finished only when the hook
  succeeded and the result carries no error.
\<close>

theorem deployPlanItem_postDeployAction_once:
  assumes dispatch: "deployAction (getItem deployPlan itemId) adapters checkOnly
             (reportProgress (getItem deployPlan itemId) Started None st) = (Inr result, st2)"
  shows "\<exists>r st' call fin.
           deployPlanItem deployPlan adapters postDeployAction checkOnly ap dc itemId st = (r, st') \<and>
           events st' = events st @
             [ReportProgress (getItem deployPlan itemId) Started None, call,
              PostDeployAction (appliedChanges result), fin] \<and>
           (\<exists>name opts. call = Deploy name opts \<or> call = Validate name opts) \<and>
           elements st'
             = snd (postDeployAction (appliedChanges result)
                 (updatePlanElement ap dc (getItem deployPlan itemId) (appliedChanges result)
                    (elements st2))) \<and>
           (\<forall>e. fst (postDeployAction (appliedChanges result)
                   (updatePlanElement ap dc (getItem deployPlan itemId) (appliedChanges result)
                      (elements st2))) = Inl e \<longrightarrow>
                r = Inl e \<and>
                fin = ReportProgress (getItem deployPlan itemId) ErrorStatus (Some (message e))) \<and>
           (fst (postDeployAction (appliedChanges result)
                   (updatePlanElement ap dc (getItem deployPlan itemId) (appliedChanges result)
                      (elements st2))) = Inr () \<and> errors result = [] \<longrightarrow>
                r = Inr () \<and> fin = ReportProgress (getItem deployPlan itemId) Finished None) \<and>
           (fst (postDeployAction (appliedChanges result)
                   (updatePlanElement ap dc (getItem deployPlan itemId) (appliedChanges result)
                      (elements st2))) = Inr () \<and> errors result \<noteq> [] \<longrightarrow>
                r = Inl (Error (failedMessage checkOnly (getItem deployPlan itemId) result)) \<and>
                fin = ReportProgress (getItem deployPlan itemId) ErrorStatus
                        (Some (failedMessage checkOnly (getItem deployPlan itemId) result))) \<and>
           (fin = ReportProgress (getItem deployPlan itemId) Finished None \<or>
            (\<exists>m. fin = ReportProgress (getItem deployPlan itemId) ErrorStatus (Some m))) \<and>
           (errors result \<noteq> [] \<longrightarrow>
              fin \<noteq> ReportProgress (getItem deployPlan itemId) Finished None)"
proof -
  let ?item = "getItem deployPlan itemId"
  let ?s5 = "updatePlanElement ap dc ?item (appliedChanges result) (elements st2)"
  obtain call where call: "events st2 = events st @ [ReportProgress ?item Started None, call]"
    "\<exists>name opts. call = Deploy name opts \<or> call = Validate name opts"
    using dispatched_events(3) [OF dispatch] by blast
  show ?thesis
  proof (cases "postDeployAction (appliedChanges result) ?s5")
    case (Pair pr s')
    show ?thesis
    proof (cases pr)
      case (Inl e)
      with Pair call show ?thesis
        by (auto simp: deployPlanItem_dispatched [OF dispatch] Let_def rethrow_def
            reportProgress_def)
    next
      case (Inr u)
      with Pair call show ?thesis
        by (auto simp: deployPlanItem_dispatched [OF dispatch] Let_def rethrow_def
            reportProgress_def)
    qed
  qed
qed


theorem deployPlanItem_postDeployAction_once_witness:
  "deployAction (getItem exPlan ''A'') exAdapters False
     (reportProgress (getItem exPlan ''A'') Started None (initialRun exStore))
     = (Inr exResult, exDispatched) \<and>
   (\<exists>st' call. deployPlanItem exPlan exAdapters exSavingPostDeployAction False overwriteApply
        overwriteCompare ''A'' (initialRun exStore) = (Inl exFailure, st') \<and>
      events st' = [ReportProgress exItem Started None, call,
                    PostDeployAction [Modification 0 10, Removal 11, Addition 12],
                    ReportProgress exItem ErrorStatus (Some (message exFailure))] \<and>
      elements st' 20 = exElement ''salto.saved'' 3) \<and>
   (\<exists>st'. deployPlanItem exPlan exAdapters exFailingPostDeployAction False overwriteApply
        overwriteCompare ''A'' (initialRun exStore) = (Inl (Error ''cannot persist''), st')) \<and>
   deployAction (getItem exPlan ''B'') exAdapters False
     (reportProgress (getItem exPlan ''B'') Started None (initialRun exStore))
     = (Inr exResultB, exDispatchedB) \<and>
   (\<exists>st' call. deployPlanItem exPlan exAdapters exSavingPostDeployAction False overwriteApply
        overwriteCompare ''B'' (initialRun exStore) = (Inr (), st') \<and>
      events st' = [ReportProgress exItemB Started None, call, PostDeployAction [Removal 1],
                    ReportProgress exItemB Finished None] \<and>
      elements st' 20 = exElement ''salto.saved'' 1)"
proof -
  have applied: "appliedChanges exResult = [Modification 0 10, Removal 11, Addition 12]"
    by (simp add: exResult_def)
  have saving: "\<exists>st' call. deployPlanItem exPlan exAdapters exSavingPostDeployAction False
        overwriteApply overwriteCompare ''A'' (initialRun exStore) = (Inl exFailure, st') \<and>
      events st' = [ReportProgress exItem Started None, call,
                    PostDeployAction [Modification 0 10, Removal 11, Addition 12],
                    ReportProgress exItem ErrorStatus (Some (message exFailure))] \<and>
      elements st' 20 = exElement ''salto.saved'' 3"
    using deployPlanItem_postDeployAction_once [OF ex_dispatch, of exSavingPostDeployAction
        overwriteApply overwriteCompare] ex_errors
    by (auto simp: exSavingPostDeployAction_def initialRun_def ex_item applied
        ex_failed_message ex_failure numeral_3_eq_3)
  have failing: "\<exists>st'. deployPlanItem exPlan exAdapters exFailingPostDeployAction False
        overwriteApply overwriteCompare ''A'' (initialRun exStore)
        = (Inl (Error ''cannot persist''), st')"
    using deployPlanItem_postDeployAction_once [OF ex_dispatch, of exFailingPostDeployAction
        overwriteApply overwriteCompare]
    by (auto simp: exFailingPostDeployAction_def)
  have finished: "\<exists>st' call. deployPlanItem exPlan exAdapters exSavingPostDeployAction False
        overwriteApply overwriteCompare ''B'' (initialRun exStore) = (Inr (), st') \<and>
      events st' = [ReportProgress exItemB Started None, call, PostDeployAction [Removal 1],
                    ReportProgress exItemB Finished None] \<and>
      elements st' 20 = exElement ''salto.saved'' 1"
    using deployPlanItem_postDeployAction_once [OF ex_dispatchB, of exSavingPostDeployAction
        overwriteApply overwriteCompare]
    by (auto simp: exSavingPostDeployAction_def initialRun_def ex_itemB exResultB_def)
  from saving failing finished ex_dispatch ex_dispatchB show ?thesis by blast
qed

section \<open>Properties of deployActions\<close>

subsection \<open>The two forEach loops of the outer catch\<close>

lemma foldl_handlerErrorCallback:
  "foldl (handlerErrorCallback deployPlan) (deployErrors, st) nodeErrors =
     (deployErrors @
        map (\<lambda>(key, e). DeployError (groupKey (getItem deployPlan key))
               (if is_NodeSkippedError e then skippedMessage key (causingNode e) else message e))
          nodeErrors,
      st\<lparr>events := events st @
           map (\<lambda>(key, e). ReportProgress (getItem deployPlan key) Cancelled
                  (Some (groupKey (getItem deployPlan (causingNode e)))))
             (filter (\<lambda>(key, e). is_NodeSkippedError e) nodeErrors)\<rparr>)"
proof (induction nodeErrors arbitrary: deployErrors st)
  case Nil
  then show ?case by simp
next
  case (Cons a nodeErrors)
  obtain key e where a: "a = (key, e)" by (cases a)
  show ?case
    by (cases e) (simp_all add: a Cons.IH Let_def reportProgress_def)
qed

lemma foldl_circularCallback:
  "foldl (circularCallback deployPlan c) (deployErrors, st) ids =
     (deployErrors @
        map (\<lambda>ident. DeployError (groupKey (getItem deployPlan ident)) (circularMessage c)) ids,
      st\<lparr>events := events st @
           map (\<lambda>ident. ReportProgress (getItem deployPlan ident) ErrorStatus
                  (Some (circularMessage c))) ids\<rparr>)"
  by (induction ids arbitrary: deployErrors st)
     (simp_all add: circularCallback_def Let_def reportProgress_def)

subsection \<open>The result of deployActions, by the outcome of the walk\<close>

lemma deployActions_WalkError:
  assumes "walkAsync deployPlan
             (deployPlanItem deployPlan adapters postDeployAction checkOnly ap dc)
             (initialRun s) = (Inl (WalkError m nodeErrors circular), st)"
  shows "deployActions deployPlan adapters postDeployAction checkOnly ap dc s =
     (let st' = st\<lparr>events := events st @
           map (\<lambda>(key, e). ReportProgress (getItem deployPlan key) Cancelled
                  (Some (groupKey (getItem deployPlan (causingNode e)))))
             (filter (\<lambda>(key, e). is_NodeSkippedError e) nodeErrors) @
           (case circular of
              None \<Rightarrow> []
            | Some c \<Rightarrow>
                map (\<lambda>ident. ReportProgress (getItem deployPlan ident) ErrorStatus
                       (Some (circularMessage c))) (causingNodeIds c))\<rparr>
      in (Inr (deployResult
            (map (\<lambda>(key, e). DeployError (groupKey (getItem deployPlan key))
               (if is_NodeSkippedError e then skippedMessage key (causingNode e) else message e))
               nodeErrors @
             (case circular of
                None \<Rightarrow> []
              | Some c \<Rightarrow>
                  map (\<lambda>ident. DeployError (groupKey (getItem deployPlan ident))
                         (circularMessage c)) (causingNodeIds c)))
            st'), st'))"
  using assms
  by (cases circular)
     (simp_all add: deployActions_def Let_def foldl_handlerErrorCallback foldl_circularCallback
        deployResult_def)

lemma deployActions_other:
  assumes "walkAsync deployPlan
             (deployPlanItem deployPlan adapters postDeployAction checkOnly ap dc)
             (initialRun s) = (r, st)"
    and "\<forall>e. r = Inl e \<longrightarrow> \<not> is_WalkError e"
  shows "deployActions deployPlan adapters postDeployAction checkOnly ap dc s =
           (Inr (deployResult [] st), st)"
  using assms
  by (auto simp: deployActions_def split: sum.splits error.splits)

subsection \<open>The walks of the two concrete plans\<close>

lemma ex_walk:
  "walkAsync exPlan
     (deployPlanItem exPlan exAdapters exPostDeployAction False overwriteApply overwriteCompare)
     (initialRun exStore) = (Inl exWalkError, exAfterA)"
proof -
  have "deployPlanItem
          \<lparr>getItem = (\<lambda>itemId. if itemId = ''A'' then exItem else exItemB),
           walkAsync = sequentialWalk (\<lambda>itemId. if itemId = ''B'' then [''A''] else [])
                         [''A'', ''B'']\<rparr>
          exAdapters exPostDeployAction False overwriteApply overwriteCompare
          ''A'' (initialRun exStore) = (Inl exFailure, exAfterA)"
    using ex_handlerA by (simp add: exPlan_def)
  then show ?thesis
    by (simp add: exPlan_def sequentialWalk_def exWalkError_def exFailure_def Let_def)
qed

lemma ex_walk_errors:
  "walkAsync exPlan
     (deployPlanItem exPlan exAdapters exPostDeployAction False overwriteApply overwriteCompare)
     (initialRun exStore)
   = (Inl (WalkError ''At least one error encountered during walk''
            [(''A'', exFailure),
             (''B'', NodeSkippedError ''Skipped due to an error in node A'' ''A'')] None),
      exAfterA)"
  using ex_walk by (simp add: exWalkError_def)

subsection \<open>Claims about deployActions\<close>

text \<open>
  C3. An error of the walk that is not a \<^verbatim>\<open>WalkError\<close> is specified to propagate
  out of \<^verbatim>\<open>deployActions\<close>. The code does not do so: the outer \<^verbatim>\<open>catch\<close> converts the
  per-node errors of a \<^verbatim>\<open>WalkError\<close> and has no branch for any other error, so when
  the walker itself fails with a \<^verbatim>\<open>TypeError\<close>, \<^verbatim>\<open>deployActions\<close> does not
  reject with it: it resolves to a result with an empty error list, the same result and
  the same state as for a plan whose walk succeeds.
\<close>

theorem deployActions_swallows_unexpected_error:
  "walkAsync brokenPlan
     (deployPlanItem brokenPlan exAdapters exPostDeployAction False overwriteApply overwriteCompare)
     (initialRun exStore) = (Inl (TypeError ''undefined is not a function''), initialRun exStore) \<and>
   \<not> is_WalkError (TypeError ''undefined is not a function'') \<and>
   fst (deployActions brokenPlan exAdapters exPostDeployAction False overwriteApply overwriteCompare
          exStore)
     = Inr \<lparr>resultErrors = [], resultAppliedChanges = [], resultDeploymentUrls = []\<rparr> \<and>
   deployActions brokenPlan exAdapters exPostDeployAction False overwriteApply overwriteCompare
       exStore
     = deployActions idlePlan exAdapters exPostDeployAction False overwriteApply overwriteCompare
         exStore"
  by (simp add: deployActions_def brokenPlan_def idlePlan_def deployResult_def initialRun_def)

text \<open>
  C4. When the walk fails, \<^verbatim>\<open>deployActions\<close> still returns a result, and this result
  holds the applied changes and the deployment URLs of the run as they are when the walk
  fails; no handler call removes an entry from these two lists, it only appends to them.
\<close>

theorem deployActions_keeps_partial_progress:
  assumes "walkAsync deployPlan
             (deployPlanItem deployPlan adapters postDeployAction checkOnly ap dc)
             (initialRun s) = (Inl e, st)"
  shows "\<exists>r st'. deployActions deployPlan adapters postDeployAction checkOnly ap dc s = (Inr r, st') \<and>
           resultAppliedChanges r = runAppliedChanges st \<and>
           resultDeploymentUrls r = runDeploymentUrls st \<and>
           (\<forall>itemId sa. \<exists>cs us.
              runAppliedChanges (snd (deployPlanItem deployPlan adapters postDeployAction
                  checkOnly ap dc itemId sa)) = runAppliedChanges sa @ cs \<and>
              runDeploymentUrls (snd (deployPlanItem deployPlan adapters postDeployAction
                  checkOnly ap dc itemId sa)) = runDeploymentUrls sa @ us)"
proof (cases "\<exists>m nodeErrors circular. e = WalkError m nodeErrors circular")
  case True
  then obtain m nodeErrors circular where e: "e = WalkError m nodeErrors circular"
    by blast
  from assms e have walk: "walkAsync deployPlan
      (deployPlanItem deployPlan adapters postDeployAction checkOnly ap dc) (initialRun s)
      = (Inl (WalkError m nodeErrors circular), st)"
    by simp
  show ?thesis
    using deployPlanItem_accumulates [of deployPlan adapters postDeployAction checkOnly ap dc]
    by (simp add: deployActions_WalkError [OF walk] Let_def deployResult_def)
next
  case False
  then have "\<forall>e'. (Inl e :: error + unit) = Inl e' \<longrightarrow> \<not> is_WalkError e'"
    by (auto simp: is_WalkError_def)
  from deployActions_other [OF assms this] show ?thesis
    using deployPlanItem_accumulates [of deployPlan adapters postDeployAction checkOnly ap dc]
    by (simp add: deployResult_def)
qed

theorem deployActions_keeps_partial_progress_witness:
  "walkAsync exPlan
     (deployPlanItem exPlan exAdapters exPostDeployAction False overwriteApply overwriteCompare)
     (initialRun exStore) = (Inl exWalkError, exAfterA) \<and>
   (\<exists>r st'. deployActions exPlan exAdapters exPostDeployAction False overwriteApply overwriteCompare
        exStore = (Inr r, st') \<and>
      resultAppliedChanges r = [Modification 0 10, Removal 11, Addition 12] \<and>
      resultDeploymentUrls r = [''https://example.com/deploy/1''])"
proof -
  from deployActions_keeps_partial_progress [OF ex_walk]
  obtain r st' where "deployActions exPlan exAdapters exPostDeployAction False overwriteApply
      overwriteCompare exStore = (Inr r, st')"
    "resultAppliedChanges r = runAppliedChanges exAfterA"
    "resultDeploymentUrls r = runDeploymentUrls exAfterA"
    by blast
  then show ?thesis using ex_walk by (simp add: exAfterA_def)
qed

text \<open>
  C6. For a node whose error in the walker's aggregate is a skip, \<^verbatim>\<open>deployActions\<close>
  reports the item cancelled, with the group key of the causing node as details, and
  pushes one error for it, at the position of the node among the per-node errors, saying
  that the element was not deployed as it depends on the causing node, which failed to
  deploy. There is one error per per-node error and one cancelled report per skipped node.
\<close>

theorem deployActions_skipped_node:
  assumes walk: "walkAsync deployPlan
             (deployPlanItem deployPlan adapters postDeployAction checkOnly ap dc)
             (initialRun s) = (Inl (WalkError m nodeErrors circular), st)"
    and i: "i < length nodeErrors"
    and skipped: "nodeErrors ! i = (key, NodeSkippedError m' causing)"
  shows "\<exists>r st'. deployActions deployPlan adapters postDeployAction checkOnly ap dc s = (Inr r, st') \<and>
           resultErrors r ! i
             = DeployError (groupKey (getItem deployPlan key))
                 (''Element '' @ key @ '' was not deployed, as it depends on element '' @ causing
                    @ '' which failed to deploy'') \<and>
           length (resultErrors r)
             = length nodeErrors + (case circular of None \<Rightarrow> 0 | Some c \<Rightarrow> length (causingNodeIds c)) \<and>
           ReportProgress (getItem deployPlan key) Cancelled
               (Some (groupKey (getItem deployPlan causing)))
             \<in> set (drop (length (events st)) (events st')) \<and>
           length (filter (\<lambda>ev. \<exists>item details. ev = ReportProgress item Cancelled details)
                     (drop (length (events st)) (events st')))
             = length (filter (\<lambda>(key, e). is_NodeSkippedError e) nodeErrors)"
proof -
  let ?cancel = "\<lambda>(key, e). ReportProgress (getItem deployPlan key) Cancelled
                  (Some (groupKey (getItem deployPlan (causingNode e))))"
  let ?skips = "filter (\<lambda>(key, e). is_NodeSkippedError e) nodeErrors"
  let ?isCancel = "\<lambda>ev. \<exists>item details. ev = ReportProgress item Cancelled details"
  have mem: "(key, NodeSkippedError m' causing) \<in> set ?skips"
    using i skipped by (auto simp: in_set_conv_nth)
  then have ev: "ReportProgress (getItem deployPlan key) Cancelled
       (Some (groupKey (getItem deployPlan causing))) \<in> set (map ?cancel ?skips)"
    by force
  have c1: "filter ?isCancel (map ?cancel ?skips) = map ?cancel ?skips"
    by (induction nodeErrors) auto
  have c2: "filter ?isCancel (map (\<lambda>ident. ReportProgress (getItem deployPlan ident) ErrorStatus
                       (Some (circularMessage c))) ids) = []" for c ids
    by (induction ids) auto
  show ?thesis
    using i skipped ev c1 c2
    by (cases circular)
       (simp_all add: deployActions_WalkError [OF walk] Let_def deployResult_def nth_append
          skippedMessage_def)
qed

theorem deployActions_skipped_node_witness:
  "walkAsync exPlan
     (deployPlanItem exPlan exAdapters exPostDeployAction False overwriteApply overwriteCompare)
     (initialRun exStore) = (Inl exWalkError, exAfterA) \<and>
   handlerErrors exWalkError ! 1
     = (''B'', NodeSkippedError ''Skipped due to an error in node A'' ''A'') \<and>
   (\<exists>r st'. deployActions exPlan exAdapters exPostDeployAction False overwriteApply overwriteCompare
        exStore = (Inr r, st') \<and>
      resultErrors r ! 1 = DeployError ''groupB''
        ''Element B was not deployed, as it depends on element A which failed to deploy'' \<and>
      length (resultErrors r) = 2 \<and>
      ReportProgress exItemB Cancelled (Some ''group1'')
        \<in> set (drop (length (events exAfterA)) (events st')))"
proof -
  have items: "getItem exPlan ''A'' = exItem" "getItem exPlan ''B'' = exItemB"
    by (simp_all add: exPlan_def)
  have g: "groupKey exItem = ''group1''" "groupKey exItemB = ''groupB''"
    by (simp_all add: exItem_def exItemB_def)
  from deployActions_skipped_node [OF ex_walk_errors, of 1 "''B''"
      "''Skipped due to an error in node A''" "''A''"]
  show ?thesis
    using ex_walk by (auto simp: exWalkError_def items g numeral_2_eq_2)
qed

end
